theory Spec2Isabelle
  imports Complex_Main "HOL-Library.AList" "HOL-Library.Sublist"
begin

section \<open>Common: Python exceptions and results\<close>

text \<open>
  A Python call either returns a value or raises. A raised exception is the left
  summand of the result, a returned value the right one. Only exceptions that
  are instances of \<^verbatim>\<open>Exception\<close> are modelled.
\<close>

datatype exn =
    KeyError string
  | ValueError string
  | OtherException string

type_synonym 'a result = "exn + 'a"

section \<open>handler.py: the change watcher\<close>

subsection \<open>File system events\<close>

text \<open>
  The events the watchdog library hands to a \<^verbatim>\<open>FileSystemEventHandler\<close>: a file or a
  directory was created, deleted, modified or moved. Every event has a
  \<^verbatim>\<open>src_path\<close>; the two moved events have a \<^verbatim>\<open>dest_path\<close> too. The source
  distinguishes only \<^verbatim>\<open>FileMovedEvent\<close> (by \<^verbatim>\<open>isinstance\<close>) from all other events,
  and \<^verbatim>\<open>DirMovedEvent\<close> is not a subclass of it: a moved directory reaches
  \<^verbatim>\<open>on_moved\<close> and fails the test.
\<close>

datatype event =
    FileCreatedEvent string
  | FileDeletedEvent string
  | FileModifiedEvent string
  | FileMovedEvent string string
  | DirCreatedEvent string
  | DirDeletedEvent string
  | DirModifiedEvent string
  | DirMovedEvent string string

fun src_path :: "event \<Rightarrow> string" where
  "src_path (FileCreatedEvent s) = s"
| "src_path (FileDeletedEvent s) = s"
| "src_path (FileModifiedEvent s) = s"
| "src_path (FileMovedEvent s d) = s"
| "src_path (DirCreatedEvent s) = s"
| "src_path (DirDeletedEvent s) = s"
| "src_path (DirModifiedEvent s) = s"
| "src_path (DirMovedEvent s d) = s"

text \<open>\<^verbatim>\<open>isinstance(event, FileMovedEvent)\<close>\<close>

fun is_FileMovedEvent :: "event \<Rightarrow> bool" where
  "is_FileMovedEvent (FileMovedEvent s d) = True"
| "is_FileMovedEvent e = False"

text \<open>
  The attribute \<^verbatim>\<open>dest_path\<close> of the two moved events. The handler reads it only
  after the \<^verbatim>\<open>isinstance\<close> test has succeeded, so never for an event without it.
\<close>

fun dest_path :: "event \<Rightarrow> string" where
  "dest_path (FileMovedEvent s d) = d"
| "dest_path (DirMovedEvent s d) = d"
| "dest_path e = src_path e"

subsection \<open>The expiring dictionary\<close>

text \<open>
  Modelled from the spec: the class \<^verbatim>\<open>ExpiringDict\<close> of the \<^verbatim>\<open>expiringdict\<close>
  package, which \<^verbatim>\<open>handler.py\<close> imports and which is not among the sources. It
  is an insertion-ordered dictionary from keys to a value with the time of its
  insertion (the oldest entry first). An entry is live while its age is less
  than \<open>max_age\<close>; an entry that is not live is treated as absent and is dropped
  lazily by the lookup that finds it. When the dictionary holds \<open>max_len\<close>
  entries, an insertion first drops the oldest inserted entry, expired or not.
  Each operation reads the clock once; the reading is the argument \<open>now\<close>, a
  real number of seconds.
\<close>

record 'k expiring_dict =
  max_len :: nat
  max_age :: real
  items :: "('k \<times> bool \<times> real) list"

text \<open>
  Modelled from the spec: the constructor \<^verbatim>\<open>ExpiringDict(max_len, max_age_seconds)\<close>,
  an empty dictionary.
\<close>

definition ExpiringDict :: "nat \<Rightarrow> real \<Rightarrow> 'k expiring_dict" where
  "ExpiringDict n age = \<lparr>max_len = n, max_age = age, items = []\<rparr>"

text \<open>
  Modelled from the spec: the membership test \<^verbatim>\<open>key in d\<close> of the missing class,
  which gives the answer and the dictionary after the lookup.
\<close>

definition ed_contains :: "'k expiring_dict \<Rightarrow> 'k \<Rightarrow> real \<Rightarrow> bool \<times> 'k expiring_dict" where
  "ed_contains d k now =
     (case map_of (items d) k of
        None \<Rightarrow> (False, d)
      | Some (v, t) \<Rightarrow>
          if now - t < max_age d then (True, d)
          else (False, d\<lparr>items := AList.delete k (items d)\<rparr>))"

text \<open>
  Modelled from the spec: the assignment \<^verbatim>\<open>d[key] = value\<close> of the missing class.
  A key that is present keeps its place, a new key goes to the end.
\<close>

definition ed_setitem :: "'k expiring_dict \<Rightarrow> 'k \<Rightarrow> bool \<Rightarrow> real \<Rightarrow> 'k expiring_dict" where
  "ed_setitem d k v now =
     (let its = (if length (items d) = max_len d then drop 1 (items d) else items d)
      in d\<lparr>items := AList.update k (v, now) its\<rparr>)"

subsection \<open>The handler\<close>

definition FILE_CACHE_SIZE :: nat where
  "FILE_CACHE_SIZE = 10000"

definition FILE_CACHE_AGE :: real where
  "FILE_CACHE_AGE = 1"

record handler =
  tests_running :: bool
  file_cache :: "string expiring_dict"

definition clear_cache :: "handler \<Rightarrow> handler" where
  "clear_cache h = h\<lparr>file_cache := ExpiringDict FILE_CACHE_SIZE FILE_CACHE_AGE\<rparr>"

text \<open>
  \<^verbatim>\<open>Handler.__init__\<close>. The attribute \<^verbatim>\<open>_file_cache\<close> does not exist before
  \<^verbatim>\<open>clear_cache\<close> creates it; the record needs a value for it there, which
  \<^verbatim>\<open>clear_cache\<close> replaces.
\<close>

definition Handler_init :: handler where
  "Handler_init =
     clear_cache \<lparr>tests_running = False, file_cache = ExpiringDict 0 0\<rparr>"

text \<open>\<^verbatim>\<open>str.endswith\<close>\<close>

definition endswith :: "string \<Rightarrow> string \<Rightarrow> bool" where
  "endswith s suf = suffix suf s"

text \<open>\<^verbatim>\<open>Handler._filter\<close>\<close>

definition filter_path :: "string \<Rightarrow> bool" where
  "filter_path path = endswith path ''.py''"

text \<open>\<^verbatim>\<open>Handler._is_relevant\<close>\<close>

definition is_relevant :: "event \<Rightarrow> bool" where
  "is_relevant ev =
     (let relevant = False;
          relevant = (if is_FileMovedEvent ev
                      then (if filter_path (dest_path ev) then True else relevant)
                      else relevant);
          relevant = (if filter_path (src_path ev) then True else relevant)
      in relevant)"

text \<open>\<^verbatim>\<open>Handler._get_cache_key\<close>\<close>

definition get_cache_key :: "event \<Rightarrow> string" where
  "get_cache_key ev = (if is_FileMovedEvent ev then dest_path ev else src_path ev)"

text \<open>
  \<^verbatim>\<open>Handler.run_tests\<close>. The call \<^verbatim>\<open>os.system('py.test')\<close> is the argument \<open>sys\<close>: it
  returns an exit status or raises. The list of commands handed to \<^verbatim>\<open>os.system\<close>
  so far is threaded through as a log of the test runs. The \<^verbatim>\<open>finally\<close> clause
  runs on both paths, and an exception raised by the command is raised again
  after it.
\<close>

definition run_tests ::
  "(string \<Rightarrow> int result) \<Rightarrow> handler \<times> string list \<Rightarrow> unit result \<times> handler \<times> string list" where
  "run_tests sys st =
     (case st of (h, calls) \<Rightarrow>
        let h1 = h\<lparr>tests_running := True\<rparr>;
            calls1 = calls @ [''py.test'']
        in (case sys ''py.test'' of
              Inl e \<Rightarrow> (Inl e, h1\<lparr>tests_running := False\<rparr>, calls1)
            | Inr status \<Rightarrow> (Inr (), h1\<lparr>tests_running := False\<rparr>, calls1)))"

text \<open>
  \<^verbatim>\<open>Handler._trigger\<close>. The clock is read twice, once by the membership test
  (\<open>t_lookup\<close>) and once by the insertion (\<open>t_store\<close>).
\<close>

definition trigger ::
  "(string \<Rightarrow> int result) \<Rightarrow> real \<Rightarrow> real \<Rightarrow> event \<Rightarrow> handler \<times> string list
     \<Rightarrow> unit result \<times> handler \<times> string list" where
  "trigger sys t_lookup t_store ev st =
     (case st of (h, calls) \<Rightarrow>
        if tests_running h then (Inr (), h, calls)
        else
          let relevant = is_relevant ev;
              cache_key = get_cache_key ev
          in (case ed_contains (file_cache h) cache_key t_lookup of
                (present, c1) \<Rightarrow>
                  if present then (Inr (), h\<lparr>file_cache := c1\<rparr>, calls)
                  else
                    let h2 = h\<lparr>file_cache := ed_setitem c1 cache_key True t_store\<rparr>
                    in if relevant then run_tests sys (h2, calls)
                       else (Inr (), h2, calls)))"

definition on_created where "on_created = trigger"
definition on_deleted where "on_deleted = trigger"
definition on_modified where "on_modified = trigger"
definition on_moved where "on_moved = trigger"

section \<open>testmonitorplugin.py: the session reporter\<close>

subsection \<open>Events of the wire protocol\<close>

text \<open>
  The four event classes of \<^verbatim>\<open>purkinje_messages.message\<close>, with the keyword
  arguments the plugin passes, in the order of the source:
  \<^verbatim>\<open>SessionStartedEvent(suite_name, suite_hash, tc_count)\<close>,
  \<^verbatim>\<open>TestCaseFinishedEvent(name, file, verdict, duration, suite_hash)\<close>,
  \<^verbatim>\<open>SessionTerminatedEvent(suite_hash)\<close>, \<^verbatim>\<open>ConnectionTerminationEvent(suite_hash)\<close>.
  The classes are not among the sources; building an event is taken to return.
\<close>

datatype pevent =
    is_SessionStarted: SessionStartedEvent string string int
  | is_TestCaseFinished: TestCaseFinishedEvent string string string int string
  | is_SessionTerminated: SessionTerminatedEvent string
  | is_ConnectionTermination: ConnectionTerminationEvent string

text \<open>What \<^verbatim>\<open>send_event\<close> did with an event it was handed.\<close>

datatype delivery =
    Transmitted
  | LoggedLocally
  | SendFailed

subsection \<open>The collaborators of the plugin\<close>

text \<open>
  The plugin calls into the operating system, the hash library, the WebSocket
  client, the message library and the string formatting of Python. Their
  answers are parameters of the model:
  \<^item> \<open>hostname\<close> is \<^verbatim>\<open>socket.gethostname()\<close> and \<open>getcwd\<close> is \<^verbatim>\<open>os.getcwd()\<close>, both
    taken to stay the same while the plugin lives;
  \<^item> \<open>md5_hexdigest\<close> is \<^verbatim>\<open>md5(s.encode('utf-8')).hexdigest()\<close>;
  \<^item> \<open>create_connection\<close> is \<^verbatim>\<open>websocket.create_connection\<close>, which returns a
    connection or raises;
  \<^item> \<open>serialize\<close> is \<^verbatim>\<open>event.serialize()\<close>, which returns the wire form or raises;
  \<^item> \<open>ws_send n s\<close> is \<^verbatim>\<open>self._websocket.send(s)\<close> when \<open>n\<close> events have been handed
    to \<^verbatim>\<open>send_event\<close> before; it returns or raises;
  \<^item> \<open>str_keywords\<close> is \<^verbatim>\<open>str\<close> on the keyword dictionary of a report;
  \<^item> \<open>percent_format fmt args\<close> is \<^verbatim>\<open>fmt % args\<close>, which returns the formatted line
    or raises when the conversions in \<open>fmt\<close> do not fit the arguments.
\<close>

record env =
  hostname :: string
  getcwd :: string
  md5_hexdigest :: "string \<Rightarrow> string"
  create_connection :: "string \<Rightarrow> nat result"
  serialize :: "pevent \<Rightarrow> string result"
  ws_send :: "nat \<Rightarrow> string \<Rightarrow> unit result"
  str_keywords :: "string list \<Rightarrow> string"
  percent_format :: "string \<Rightarrow> string list \<Rightarrow> string result"

subsection \<open>Reports of the test framework\<close>

text \<open>
  A test report as the plugin reads it: \<open>report_keywords\<close> holds the keys of
  \<^verbatim>\<open>report.keywords\<close>; \<open>when\<close> and \<open>outcome\<close> are the strings of the framework.
\<close>

record report =
  fspath :: string
  nodeid :: string
  report_keywords :: "string list"
  "when" :: string
  outcome :: string

text \<open>
  A collected node is a \<^verbatim>\<open>pytest.Item\<close> (an executable test case) or some other
  collection node.
\<close>

datatype node =
    Item string
  | Collector string

record collect_report =
  result :: "node list"

subsection \<open>State\<close>

text \<open>The instance attributes of \<^verbatim>\<open>TestMonitorPlugin\<close>.\<close>

record plugin =
  reports :: "report list"
  websocket_url :: string
  websocket :: "nat option"
  test_cases :: "string \<rightharpoonup> real"
  current_suite :: "string option"
  start_message_sent :: bool

text \<open>
  What outlives a plugin instance: the class attribute \<^verbatim>\<open>TestMonitorPlugin.tc_count\<close>
  and the log of the events handed to \<^verbatim>\<open>send_event\<close>, each with what became of it.
\<close>

record world =
  tc_count :: int
  send_log :: "(pevent \<times> delivery) list"

subsection \<open>Operations\<close>

definition VERDICT_MAP :: "string \<rightharpoonup> string" where
  "VERDICT_MAP = map_of
     [(''passed'', ''pass''),
      (''failed'', ''fail''),
      (''skipped'', ''skipped''),
      (''error'', ''error'')]"

text \<open>
  \<^verbatim>\<open>_log(fmt, *args)\<close> wraps the format string and prints \<^verbatim>\<open>fmt % args\<close>. All calls
  but one pass a literal format string whose conversions fit the arguments;
  they return and leave no trace in the model. The call for a test case that
  was not found puts the name of the test case into the format string itself
  and passes no arguments, so it is the formatting that decides whether the
  call returns.
\<close>

definition log_msg :: "env \<Rightarrow> string \<Rightarrow> string list \<Rightarrow> unit result" where
  "log_msg E fmt args =
     (case percent_format E (''** testmon: '' @ fmt @ '' **'') args of
        Inl e \<Rightarrow> Inl e
      | Inr line \<Rightarrow> Inr ())"

text \<open>\<^verbatim>\<open>TestMonitorPlugin.__init__\<close>: both \<^verbatim>\<open>except\<close> clauses leave the connection unset.\<close>

definition plugin_init :: "env \<Rightarrow> string \<Rightarrow> plugin" where
  "plugin_init E url =
     \<lparr>reports = [],
      websocket_url = url,
      websocket = (case create_connection E url of Inl e \<Rightarrow> None | Inr c \<Rightarrow> Some c),
      test_cases = Map.empty,
      current_suite = None,
      start_message_sent = False\<rparr>"

definition is_websocket_connected :: "plugin \<Rightarrow> bool" where
  "is_websocket_connected p = (websocket p \<noteq> None)"

definition suite_name :: "env \<Rightarrow> string" where
  "suite_name E = hostname E @ '': '' @ getcwd E"

definition suite_hash :: "env \<Rightarrow> string" where
  "suite_hash E = md5_hexdigest E (suite_name E)"

text \<open>
  \<^verbatim>\<open>send_event\<close>: every exception of the serialisation and of the transmission is
  caught, so the call always returns.
\<close>

definition send_event :: "env \<Rightarrow> plugin \<Rightarrow> world \<Rightarrow> pevent \<Rightarrow> world" where
  "send_event E p w event =
     (case serialize E event of
        Inl e \<Rightarrow> w\<lparr>send_log := send_log w @ [(event, SendFailed)]\<rparr>
      | Inr ser_event \<Rightarrow>
          (case websocket p of
             Some c \<Rightarrow>
               (case ws_send E (length (send_log w)) ser_event of
                  Inl e \<Rightarrow> w\<lparr>send_log := send_log w @ [(event, SendFailed)]\<rparr>
                | Inr u \<Rightarrow> w\<lparr>send_log := send_log w @ [(event, Transmitted)]\<rparr>)
           | None \<Rightarrow> w\<lparr>send_log := send_log w @ [(event, LoggedLocally)]\<rparr>))"

text \<open>\<^verbatim>\<open>pytest_sessionstart\<close> and \<^verbatim>\<open>pytest_collectstart\<close> only write to the log.\<close>

definition pytest_sessionstart :: "plugin \<times> world \<Rightarrow> unit result \<times> plugin \<times> world" where
  "pytest_sessionstart st = (Inr (), st)"

definition pytest_collectstart :: "string \<Rightarrow> plugin \<times> world \<Rightarrow> unit result \<times> plugin \<times> world" where
  "pytest_collectstart collector st = (Inr (), st)"

definition send_start_event :: "env \<Rightarrow> plugin \<times> world \<Rightarrow> plugin \<times> world" where
  "send_start_event E st =
     (case st of (p, w) \<Rightarrow>
        let p1 = p\<lparr>current_suite := Some (suite_name E)\<rparr>
        in (p1, send_event E p1 w
                  (SessionStartedEvent (suite_name E) (suite_hash E) (tc_count w))))"

definition pytest_sessionfinish :: "env \<Rightarrow> plugin \<times> world \<Rightarrow> unit result \<times> plugin \<times> world" where
  "pytest_sessionfinish E st =
     (case st of (p, w) \<Rightarrow>
        let w1 = send_event E p w (SessionTerminatedEvent (suite_hash E));
            w2 = send_event E p w1 (ConnectionTerminationEvent (suite_hash E))
        in (Inr (), p, w2))"

fun is_relevant_tc :: "node \<Rightarrow> bool" where
  "is_relevant_tc (Item n) = True"
| "is_relevant_tc (Collector n) = False"

definition pytest_collectreport ::
  "collect_report \<Rightarrow> plugin \<times> world \<Rightarrow> unit result \<times> plugin \<times> world" where
  "pytest_collectreport rep st =
     (case st of (p, w) \<Rightarrow>
        let test_funcs = filter is_relevant_tc (result rep)
        in (Inr (), p, w\<lparr>tc_count := tc_count w + int (length test_funcs)\<rparr>))"

text \<open>
  \<^verbatim>\<open>nodeid.split('::')\<close>: the pieces between the non-overlapping occurrences of the
  separator, found from the left. The first argument is the piece being read,
  reversed.
\<close>

fun split_colons :: "string \<Rightarrow> string \<Rightarrow> string list" where
  "split_colons cur [] = [rev cur]"
| "split_colons cur [c] = [rev (c # cur)]"
| "split_colons cur (c # d # rest) =
     (if c = CHR '':'' \<and> d = CHR '':'' then rev cur # split_colons [] rest
      else split_colons (c # cur) (d # rest))"

text \<open>\<^verbatim>\<open>int\<close> on a float truncates towards zero.\<close>

definition py_int :: "real \<Rightarrow> int" where
  "py_int x = (if 0 \<le> x then \<lfloor>x\<rfloor> else \<lceil>x\<rceil>)"

text \<open>
  \<^verbatim>\<open>pytest_runtest_logreport\<close>. The clock is read at most once per call (at the
  setup phase to record the start, at the call phase to compute the duration);
  the reading is \<open>now\<close>, a real number of seconds. The lookup
  \<^verbatim>\<open>VERDICT_MAP[report.outcome]\<close> is evaluated while the arguments of the event
  are built, after the start event has been sent, and raises \<^verbatim>\<open>KeyError\<close> for an
  outcome that is not a key.
\<close>

definition pytest_runtest_logreport ::
  "env \<Rightarrow> real \<Rightarrow> report \<Rightarrow> plugin \<times> world \<Rightarrow> unit result \<times> plugin \<times> world" where
  "pytest_runtest_logreport E now rep st =
     (case st of (p, w) \<Rightarrow>
        let tc_file = fspath rep;
            tc_components = split_colons [] (nodeid rep);
            tc_name = (if length tc_components > 1 then tc_components ! 1
                       else if ''pep8'' \<in> set (report_keywords rep) then ''PEP8''
                       else str_keywords E (report_keywords rep));
            rep_key = nodeid rep;
            p1 = (if when rep = ''setup''
                  then p\<lparr>test_cases := (test_cases p)(rep_key \<mapsto> now)\<rparr> else p)
        in if when rep \<noteq> ''call'' \<and> \<not> (when rep = ''setup'' \<and> outcome rep = ''skipped'')
           then (Inr (), p1, w)
           else
             (case (if when rep = ''call''
                    then (case test_cases p1 rep_key of
                            None \<Rightarrow> None
                          | Some t0 \<Rightarrow> Some (py_int ((now - t0) * 1000)))
                    else Some 0) of
                None \<Rightarrow>
                  (case log_msg E (''Test case '' @ tc_name @ '' not found'') [] of
                     Inl e \<Rightarrow> (Inl e, p1, w)
                   | Inr u \<Rightarrow> (Inr (), p1, w))
              | Some duration \<Rightarrow>
                  (case (if \<not> start_message_sent p1
                         then (case send_start_event E (p1, w) of
                                 (p', w') \<Rightarrow> (p'\<lparr>start_message_sent := True\<rparr>, w'))
                         else (p1, w)) of
                     (p2, w2) \<Rightarrow>
                       (case VERDICT_MAP (outcome rep) of
                          None \<Rightarrow> (Inl (KeyError (outcome rep)), p2, w2)
                        | Some verdict \<Rightarrow>
                            (Inr (),
                             p2\<lparr>reports := reports p2 @ [rep]\<rparr>,
                             send_event E p2 w2
                               (TestCaseFinishedEvent tc_name tc_file verdict duration
                                  (suite_hash E)))))))"

subsection \<open>Sessions\<close>

text \<open>
  The hook calls the framework makes between the construction of the plugin and
  the end of the session. A report hook carries the reading of the clock during
  the call.
\<close>

datatype hook =
    SessionStart
  | CollectStart string
  | CollectReport collect_report
  | RuntestLogreport report real

fun run_hook :: "env \<Rightarrow> hook \<Rightarrow> plugin \<times> world \<Rightarrow> unit result \<times> plugin \<times> world" where
  "run_hook E SessionStart st = pytest_sessionstart st"
| "run_hook E (CollectStart c) st = pytest_collectstart c st"
| "run_hook E (CollectReport r) st = pytest_collectreport r st"
| "run_hook E (RuntestLogreport r now) st = pytest_runtest_logreport E now r st"

text \<open>
  The hooks of a session in order. An exception raised by a hook goes to the
  framework, not to the plugin: the state the hook left behind is the state the
  next hook finds.
\<close>

fun run_hooks :: "env \<Rightarrow> hook list \<Rightarrow> plugin \<times> world \<Rightarrow> plugin \<times> world" where
  "run_hooks E [] st = st"
| "run_hooks E (h # hs) st = run_hooks E hs (snd (run_hook E h st))"

text \<open>
  A whole session of one plugin instance: construction, the hooks, and the
  session-finish hook, which the framework calls last.
\<close>

definition session :: "env \<Rightarrow> string \<Rightarrow> hook list \<Rightarrow> world \<Rightarrow> plugin \<times> world" where
  "session E url hs w = snd (pytest_sessionfinish E (run_hooks E hs (plugin_init E url, w)))"

text \<open>The events handed to \<^verbatim>\<open>send_event\<close>, in order.\<close>

definition emitted :: "world \<Rightarrow> pevent list" where
  "emitted w = map fst (send_log w)"

section \<open>Auxiliary definitions\<close>

subsection \<open>The change watcher\<close>

text \<open>
  The invariant of the handler: the cache has the parameters \<^verbatim>\<open>clear_cache\<close> gave it
  and, being a dictionary, holds every key once. It holds after \<^verbatim>\<open>__init__\<close> and
  every operation keeps it.
\<close>

definition handler_inv :: "handler \<Rightarrow> bool" where
  "handler_inv h =
     (max_len (file_cache h) = FILE_CACHE_SIZE \<and>
      max_age (file_cache h) = FILE_CACHE_AGE \<and>
      distinct (map fst (items (file_cache h))))"

text \<open>
  Two behaviours of \<^verbatim>\<open>os.system\<close>: the command returns exit status 0, or the call
  raises (as the mock of \<^verbatim>\<open>test_run_tests_with_error\<close> does).
\<close>

definition system_ok :: "string \<Rightarrow> int result" where
  "system_ok cmd = Inr 0"

definition system_raises :: "string \<Rightarrow> int result" where
  "system_raises cmd = Inl (OtherException ''Dummy exception'')"

text \<open>The events the library dispatches to \<^verbatim>\<open>on_moved\<close>.\<close>

fun is_moved :: "event \<Rightarrow> bool" where
  "is_moved (FileMovedEvent s d) = True"
| "is_moved (DirMovedEvent s d) = True"
| "is_moved e = False"

text \<open>
  Concrete events: a Python file is created, a text file is created, a Python
  file is renamed to a text file, a directory is renamed to a name that ends
  in \<^verbatim>\<open>.py\<close>.
\<close>

definition dir_moved_to_py :: event where
  "dir_moved_to_py = DirMovedEvent ''/a/b/c/pkg'' ''/a/b/c/pkg.py''"

definition py_created :: event where
  "py_created = FileCreatedEvent ''/a/b/c/myfile.py''"

definition txt_created :: event where
  "txt_created = FileCreatedEvent ''/a/b/c/myfile.txt''"

definition moved_away :: event where
  "moved_away = FileMovedEvent ''/a/b/c/myfile.py'' ''/a/b/c/myfile.txt''"

subsection \<open>The session reporter\<close>

text \<open>
  The name of the test case that \<^verbatim>\<open>pytest_runtest_logreport\<close> computes from the
  report before it looks at the phase.
\<close>

definition tc_name :: "env \<Rightarrow> report \<Rightarrow> string" where
  "tc_name E rep =
     (let tc_components = split_colons [] (nodeid rep)
      in if length tc_components > 1 then tc_components ! 1
         else if ''pep8'' \<in> set (report_keywords rep) then ''PEP8''
         else str_keywords E (report_keywords rep))"

text \<open>
  The invariant of a session whose log was \<open>base\<close> when the plugin was made: until
  the start event is marked as sent nothing has been emitted; afterwards the
  session has emitted one start event and then only case results.
\<close>

definition started_ok :: "env \<Rightarrow> pevent list \<Rightarrow> plugin \<times> world \<Rightarrow> bool" where
  "started_ok E base st =
     (if start_message_sent (fst st)
      then (\<exists>c tcs. emitted (snd st) =
              base @ SessionStartedEvent (suite_name E) (suite_hash E) c # tcs \<and>
              list_all is_TestCaseFinished tcs)
      else emitted (snd st) = base)"

text \<open>
  The node id a hook call is about, and the executable test cases a hook call
  delivers.
\<close>

fun hook_nodeid :: "hook \<Rightarrow> string option" where
  "hook_nodeid (RuntestLogreport r now) = Some (nodeid r)"
| "hook_nodeid h = None"

fun hook_items :: "hook \<Rightarrow> node list" where
  "hook_items (CollectReport r) = filter is_relevant_tc (result r)"
| "hook_items h = []"

text \<open>
  A hook call that returns before the event emission: every hook but a report
  of the call phase or a skipped setup.
\<close>

fun silent :: "hook \<Rightarrow> bool" where
  "silent (RuntestLogreport r now) =
     (when r \<noteq> ''call'' \<and> \<not> (when r = ''setup'' \<and> outcome r = ''skipped''))"
| "silent h = True"

text \<open>
  The hooks of a session, each with the events emitted during the call, and
  the events emitted during the report hooks of one node id.
\<close>

fun run_hooks_log :: "env \<Rightarrow> hook list \<Rightarrow> plugin \<times> world \<Rightarrow> (hook \<times> pevent list) list" where
  "run_hooks_log E [] st = []"
| "run_hooks_log E (h # hs) st =
     (h, drop (length (emitted (snd st))) (emitted (snd (snd (run_hook E h st))))) #
     run_hooks_log E hs (snd (run_hook E h st))"

definition node_events :: "env \<Rightarrow> string \<Rightarrow> hook list \<Rightarrow> plugin \<times> world \<Rightarrow> pevent list" where
  "node_events E n hs st =
     concat (map snd (filter (\<lambda>x. hook_nodeid (fst x) = Some n) (run_hooks_log E hs st)))"

text \<open>
  Concrete collaborators and inputs: a host and a directory, a connection that
  opens and transmits, and reports of one test module.
\<close>

definition demo_md5 :: "string \<Rightarrow> string" where
  "demo_md5 s = ''md5:'' @ s"

definition demo_connect :: "string \<Rightarrow> nat result" where
  "demo_connect url = Inr 0"

definition demo_serialize :: "pevent \<Rightarrow> string result" where
  "demo_serialize ev = Inr ''{}''"

definition demo_send :: "nat \<Rightarrow> string \<Rightarrow> unit result" where
  "demo_send n s = Inr ()"

definition demo_format :: "string \<Rightarrow> string list \<Rightarrow> string result" where
  "demo_format fmt args = Inr fmt"

definition demo_env :: env where
  "demo_env =
     \<lparr>hostname = ''host'', getcwd = ''/work'', md5_hexdigest = demo_md5,
      create_connection = demo_connect, serialize = demo_serialize,
      ws_send = demo_send, str_keywords = concat, percent_format = demo_format\<rparr>"

definition demo_url :: string where
  "demo_url = ''ws://localhost:5000/event''"

definition mk_report :: "string \<Rightarrow> string \<Rightarrow> string \<Rightarrow> report" where
  "mk_report n ph oc =
     \<lparr>fspath = ''test_m.py'', nodeid = n, report_keywords = [], when = ph, outcome = oc\<rparr>"

definition world0 :: world where
  "world0 = \<lparr>tc_count = 0, send_log = []\<rparr>"

definition three_items :: collect_report where
  "three_items = \<lparr>result = [Item ''test_a'', Item ''test_b'', Item ''test_c'']\<rparr>"

definition five_items_two_collectors :: collect_report where
  "five_items_two_collectors =
     \<lparr>result = [Collector ''test_m.py'', Item ''test_d'', Item ''test_e'', Item ''test_f'',
                Collector ''TestClass'', Item ''test_g'', Item ''test_h'']\<rparr>"

definition skipped_a :: report where
  "skipped_a = mk_report ''test_m.py::test_a'' ''setup'' ''skipped''"

definition weird_call_a :: report where
  "weird_call_a = mk_report ''test_m.py::test_a'' ''call'' ''xfailed''"

definition plugin_after_setup :: plugin where
  "plugin_after_setup =
     (plugin_init demo_env demo_url)\<lparr>test_cases := [''test_m.py::test_a'' \<mapsto> 1]\<rparr>"

definition hooks_before :: "hook list" where
  "hooks_before =
     [SessionStart, CollectReport three_items,
      RuntestLogreport (mk_report ''test_m.py::test_b'' ''setup'' ''passed'') 1,
      RuntestLogreport (mk_report ''test_m.py::test_b'' ''call'' ''passed'') 2]"

definition hooks_after :: "hook list" where
  "hooks_after =
     [RuntestLogreport (mk_report ''test_m.py::test_a'' ''teardown'' ''passed'') 4]"

definition example_hooks :: "hook list" where
  "example_hooks =
     [RuntestLogreport (mk_report ''test_m.py::test_a'' ''setup'' ''passed'') 1,
      RuntestLogreport (mk_report ''test_m.py::test_a'' ''call'' ''passed'') 2,
      RuntestLogreport (mk_report ''test_m.py::test_b'' ''setup'' ''passed'') 3,
      RuntestLogreport (mk_report ''test_m.py::test_b'' ''call'' ''failed'') 5]"

section \<open>The change watcher: proofs\<close>

subsection \<open>The expiring dictionary\<close>

lemma map_of_ed_setitem:
  "map_of (items (ed_setitem d k v now)) k = Some (v, now)"
  by (simp add: ed_setitem_def Let_def update_conv')

lemma ed_contains_live:
  "map_of (items d) k = Some (v, t) \<Longrightarrow> now - t < max_age d \<Longrightarrow> ed_contains d k now = (True, d)"
  by (simp add: ed_contains_def)

lemma ed_contains_expired:
  "map_of (items d) k = Some (v, t) \<Longrightarrow> max_age d \<le> now - t \<Longrightarrow> \<not> fst (ed_contains d k now)"
  by (simp add: ed_contains_def)

lemma max_age_ed_contains: "max_age (snd (ed_contains d k now)) = max_age d"
  by (simp add: ed_contains_def split: option.splits prod.splits)

lemma max_len_ed_contains: "max_len (snd (ed_contains d k now)) = max_len d"
  by (simp add: ed_contains_def split: option.splits prod.splits)

lemma distinct_ed_contains:
  "distinct (map fst (items d)) \<Longrightarrow> distinct (map fst (items (snd (ed_contains d k now))))"
  by (simp add: ed_contains_def distinct_delete split: option.splits prod.splits)

lemma max_age_ed_setitem: "max_age (ed_setitem d k v now) = max_age d"
  by (simp add: ed_setitem_def Let_def)

lemma max_len_ed_setitem: "max_len (ed_setitem d k v now) = max_len d"
  by (simp add: ed_setitem_def Let_def)

lemma distinct_ed_setitem:
  "distinct (map fst (items d)) \<Longrightarrow> distinct (map fst (items (ed_setitem d k v now)))"
  by (simp add: ed_setitem_def Let_def distinct_update drop_map[symmetric])

lemma count_distinct_key:
  "distinct (map fst al) \<Longrightarrow> map_of al k = Some v \<Longrightarrow>
   length (filter (\<lambda>e. fst e = k) al) = 1"
proof (induction al)
  case Nil
  then show ?case by simp
next
  case (Cons a al)
  show ?case
  proof (cases "fst a = k")
    case True
    then have "k \<notin> fst ` set al" using Cons.prems(1) by auto
    then have "filter (\<lambda>e. fst e = k) al = []"
      by (auto simp: filter_empty_conv)
    then show ?thesis using True by simp
  next
    case False
    then show ?thesis using Cons by (cases a) auto
  qed
qed

subsection \<open>The invariant\<close>

lemma handler_inv_init: "handler_inv Handler_init"
  by (simp add: handler_inv_def Handler_init_def clear_cache_def ExpiringDict_def)

lemma run_tests_state:
  "fst (snd (run_tests sys (h, calls))) = h\<lparr>tests_running := False\<rparr>"
  by (simp add: run_tests_def Let_def split: sum.splits)

lemma calls_run_tests: "snd (snd (run_tests sys (h, calls))) = calls @ [''py.test'']"
  by (simp add: run_tests_def Let_def split: sum.splits)

lemma handler_inv_run_tests:
  "handler_inv h \<Longrightarrow> handler_inv (fst (snd (run_tests sys (h, calls))))"
  by (simp add: handler_inv_def run_tests_def Let_def split: sum.splits)

lemma handler_inv_trigger:
  "handler_inv h \<Longrightarrow> handler_inv (fst (snd (trigger sys t s ev (h, calls))))"
proof (cases "ed_contains (file_cache h) (get_cache_key ev) t")
  case (Pair present c1)
  assume inv: "handler_inv h"
  have c1: "c1 = snd (ed_contains (file_cache h) (get_cache_key ev) t)"
    by (simp add: Pair)
  have "max_len c1 = FILE_CACHE_SIZE" "max_age c1 = FILE_CACHE_AGE"
    "distinct (map fst (items c1))"
    using inv unfolding c1 handler_inv_def
    by (simp_all add: max_age_ed_contains max_len_ed_contains distinct_ed_contains)
  then show ?thesis
    using inv Pair
    by (simp add: handler_inv_def trigger_def Let_def run_tests_state
        max_age_ed_setitem max_len_ed_setitem distinct_ed_setitem)
qed

lemma handler_inv_clear_cache: "handler_inv (clear_cache h)"
  by (simp add: handler_inv_def clear_cache_def ExpiringDict_def)

subsection \<open>One call of the trigger\<close>

lemma trigger_live:
  "\<not> tests_running h \<Longrightarrow> map_of (items (file_cache h)) (get_cache_key ev) = Some (v, t)
   \<Longrightarrow> now - t < max_age (file_cache h)
   \<Longrightarrow> trigger sys now s ev (h, calls) = (Inr (), h, calls)"
  by (simp add: trigger_def ed_contains_live)

lemma trigger_fresh:
  "\<not> tests_running h \<Longrightarrow> \<not> fst (ed_contains (file_cache h) (get_cache_key ev) t)
   \<Longrightarrow> trigger sys t s ev (h, calls) =
     (let h2 = h\<lparr>file_cache :=
                  ed_setitem (snd (ed_contains (file_cache h) (get_cache_key ev) t))
                    (get_cache_key ev) True s\<rparr>
      in if is_relevant ev then run_tests sys (h2, calls) else (Inr (), h2, calls))"
  by (cases "ed_contains (file_cache h) (get_cache_key ev) t") (simp add: trigger_def Let_def)

lemma is_relevant_paths:
  "is_relevant ev =
     (endswith (get_cache_key ev) ''.py'' \<or> endswith (src_path ev) ''.py'')"
  by (cases ev) (auto simp: is_relevant_def get_cache_key_def filter_path_def)

subsection \<open>Debouncing\<close>

text \<open>
  Claim C2. Let the running flag be false, the event relevant and its cache key
  not a live entry of the cache at the time \<open>t1\<close> of the lookup. Then the call of
  \<^verbatim>\<open>_trigger\<close> makes exactly one test run: the log of runs grows by one entry. The
  entry of the key carries the time \<open>s1\<close> of the insertion. A second event with
  the same cache key that is looked up less than 1 second after \<open>s1\<close> changes
  nothing and makes no run; the same event looked up 1 second or more after
  \<open>s1\<close> makes a second run.
\<close>

theorem trigger_debounce:
  assumes inv: "handler_inv h"
    and idle: "\<not> tests_running h"
    and rel: "is_relevant ev"
    and fresh: "\<not> fst (ed_contains (file_cache h) (get_cache_key ev) t1)"
    and same_key: "get_cache_key ev2 = get_cache_key ev"
    and within: "t2 - s1 < 1"
    and after: "1 \<le> t3 - s1"
  shows "snd (snd (trigger sys1 t1 s1 ev (h, calls))) = calls @ [''py.test''] \<and>
         trigger sys2 t2 s2 ev2 (snd (trigger sys1 t1 s1 ev (h, calls))) =
           (Inr (), snd (trigger sys1 t1 s1 ev (h, calls))) \<and>
         snd (snd (trigger sys3 t3 s3 ev (snd (trigger sys1 t1 s1 ev (h, calls))))) =
           calls @ [''py.test'', ''py.test'']"
proof -
  define c1 where "c1 = ed_setitem (snd (ed_contains (file_cache h) (get_cache_key ev) t1))
                    (get_cache_key ev) True s1"
  define h1 where "h1 = h\<lparr>file_cache := c1, tests_running := False\<rparr>"
  have first: "snd (trigger sys1 t1 s1 ev (h, calls)) = (h1, calls @ [''py.test''])"
    using idle rel fresh
    by (simp add: trigger_fresh Let_def prod_eq_iff run_tests_state calls_run_tests
        h1_def c1_def)
  have age: "max_age c1 = 1"
    using inv by (simp add: c1_def max_age_ed_setitem max_age_ed_contains handler_inv_def
        FILE_CACHE_AGE_def)
  have entry: "map_of (items c1) (get_cache_key ev) = Some (True, s1)"
    by (simp add: c1_def map_of_ed_setitem)
  have idle1: "\<not> tests_running h1" by (simp add: h1_def)
  have cache1: "file_cache h1 = c1" by (simp add: h1_def)
  have second: "trigger sys2 t2 s2 ev2 (h1, calls @ [''py.test'']) =
      (Inr (), h1, calls @ [''py.test''])"
    using within by (intro trigger_live [where v = True and t = s1])
      (simp_all add: idle1 cache1 same_key entry age)
  have expired: "\<not> fst (ed_contains (file_cache h1) (get_cache_key ev) t3)"
    using after by (intro ed_contains_expired [where v = True and t = s1])
      (simp_all add: cache1 entry age)
  have third: "snd (snd (trigger sys3 t3 s3 ev (h1, calls @ [''py.test'']))) =
      calls @ [''py.test'', ''py.test'']"
    using idle1 rel expired
    by (simp add: trigger_fresh Let_def calls_run_tests)
  show ?thesis
    by (simp only: first snd_conv second third simp_thms)
qed

theorem trigger_debounce_witness:
  "handler_inv Handler_init \<and> \<not> tests_running Handler_init \<and> is_relevant py_created \<and>
   \<not> fst (ed_contains (file_cache Handler_init) (get_cache_key py_created) 10) \<and>
   get_cache_key py_created = get_cache_key py_created \<and> (10.5::real) - 10 < 1 \<and>
   (1::real) \<le> 11 - 10 \<and>
   snd (snd (trigger system_ok 10 10 py_created (Handler_init, []))) = [] @ [''py.test''] \<and>
   trigger system_ok 10.5 10.5 py_created (snd (trigger system_ok 10 10 py_created (Handler_init, []))) =
     (Inr (), snd (trigger system_ok 10 10 py_created (Handler_init, []))) \<and>
   snd (snd (trigger system_raises 11 11 py_created
     (snd (trigger system_ok 10 10 py_created (Handler_init, []))))) = [] @ [''py.test'', ''py.test'']"
proof -
  have a: "handler_inv Handler_init" by (rule handler_inv_init)
  have b: "\<not> tests_running Handler_init"
    by (simp add: Handler_init_def clear_cache_def)
  have c: "is_relevant py_created"
    by (simp add: is_relevant_def py_created_def filter_path_def endswith_def suffix_to_prefix)
  have d: "\<not> fst (ed_contains (file_cache Handler_init) (get_cache_key py_created) 10)"
    by (simp add: Handler_init_def clear_cache_def ExpiringDict_def ed_contains_def)
  have e: "(10.5::real) - 10 < 1" by simp
  have f: "(1::real) \<le> 11 - 10" by simp
  show ?thesis
    using trigger_debounce [OF a b c d refl e f, where ?sys1.0 = system_ok and calls = "[]"
        and ?sys2.0 = system_ok and ?s2.0 = "10.5" and ?sys3.0 = system_raises and ?s3.0 = 11]
      a b c d e f by simp
qed

text \<open>
  Claim C3. While the running flag is true, \<^verbatim>\<open>_trigger\<close> returns at once for every
  event: the handler, with its cache, and the log of test runs are unchanged.
\<close>

theorem trigger_while_running:
  assumes "tests_running h"
  shows "trigger sys t_lookup t_store ev (h, calls) = (Inr (), h, calls)"
  using assms by (simp add: trigger_def)

theorem trigger_while_running_witness:
  "tests_running (Handler_init\<lparr>tests_running := True\<rparr>) \<and>
   trigger system_ok 3 4 py_created (Handler_init\<lparr>tests_running := True\<rparr>, [''py.test'']) =
     (Inr (), Handler_init\<lparr>tests_running := True\<rparr>, [''py.test''])"
proof -
  have a: "tests_running (Handler_init\<lparr>tests_running := True\<rparr>)" by simp
  show ?thesis
    using trigger_while_running [OF a, of system_ok 3 4 py_created "[''py.test'']"] a
    by simp
qed

text \<open>
  Claim C4. After \<^verbatim>\<open>run_tests\<close> the running flag is false, whether the command
  returned or raised; an exception of the command is the result of \<^verbatim>\<open>run_tests\<close>,
  so the caller sees it; and the command was invoked once.
\<close>

theorem run_tests_resets_flag:
  "tests_running (fst (snd (run_tests sys (h, calls)))) = False \<and>
   fst (run_tests sys (h, calls)) =
     (case sys ''py.test'' of Inl e \<Rightarrow> Inl e | Inr status \<Rightarrow> Inr ()) \<and>
   snd (snd (run_tests sys (h, calls))) = calls @ [''py.test'']"
  by (simp add: run_tests_def Let_def split: sum.splits)

theorem run_tests_resets_flag_witness:
  "run_tests system_raises (Handler_init, []) =
     (Inl (OtherException ''Dummy exception''), Handler_init, [''py.test'']) \<and>
   run_tests system_ok (Handler_init, []) = (Inr (), Handler_init, [''py.test''])"
  using run_tests_resets_flag [of system_raises Handler_init "[]"]
    run_tests_resets_flag [of system_ok Handler_init "[]"]
  by (simp add: run_tests_def Let_def system_raises_def system_ok_def Handler_init_def
      clear_cache_def)

text \<open>
  Claim C6, as stated, fails for a moved directory: the event is a moved event
  and reaches \<^verbatim>\<open>on_moved\<close>, but it is not a \<^verbatim>\<open>FileMovedEvent\<close>, so \<^verbatim>\<open>_is_relevant\<close> does
  not look at its destination path. A directory renamed to a name that ends in
  \<^verbatim>\<open>.py\<close> is not relevant.
\<close>

theorem is_relevant_dir_moved_counterexample:
  "is_moved dir_moved_to_py \<and>
   \<not> (is_relevant dir_moved_to_py =
        (endswith (dest_path dir_moved_to_py) ''.py'' \<or>
         endswith (src_path dir_moved_to_py) ''.py''))"
  by (simp add: dir_moved_to_py_def is_relevant_def filter_path_def endswith_def
      suffix_to_prefix)

text \<open>
  Claim C6, amended. A moved file (a \<^verbatim>\<open>FileMovedEvent\<close>) is relevant if and only
  if its destination path or its source path ends in \<^verbatim>\<open>.py\<close>; a file moved from a
  \<^verbatim>\<open>.py\<close> path to another suffix is relevant. A moved directory is relevant if and
  only if its source path ends in \<^verbatim>\<open>.py\<close>.
\<close>

theorem is_relevant_moved:
  "is_relevant (FileMovedEvent src dest) = (endswith dest ''.py'' \<or> endswith src ''.py'') \<and>
   is_relevant (FileMovedEvent ''/a/b/c/myfile.py'' ''/a/b/c/myfile.txt'') \<and>
   is_relevant (DirMovedEvent src dest) = endswith src ''.py''"
  by (simp add: is_relevant_def filter_path_def endswith_def suffix_to_prefix)

subsection \<open>Irrelevant events\<close>

text \<open>
  Claim C5, as stated, fails for a moved file: the effective path of a file
  renamed from \<^verbatim>\<open>myfile.py\<close> to \<^verbatim>\<open>myfile.txt\<close> does not end in \<^verbatim>\<open>.py\<close>, yet the
  event is relevant through its source path and a test run is made.
\<close>

theorem irrelevant_effective_path_counterexample:
  "\<not> endswith (get_cache_key moved_away) ''.py'' \<and>
   \<not> tests_running Handler_init \<and>
   snd (snd (trigger system_ok 0 0 moved_away (Handler_init, []))) = [''py.test'']"
  by (simp add: moved_away_def get_cache_key_def endswith_def suffix_to_prefix
      Handler_init_def clear_cache_def ExpiringDict_def trigger_def ed_contains_def
      ed_setitem_def is_relevant_def filter_path_def run_tests_def system_ok_def
      FILE_CACHE_SIZE_def)

text \<open>
  The key under which \<^verbatim>\<open>_trigger\<close> records an event: the destination path of a
  moved file, the source path of every other event, a moved directory included.
\<close>

lemma get_cache_key_cases:
  "get_cache_key (FileMovedEvent src dest) = dest"
  "get_cache_key (DirMovedEvent src dest) = src"
  "\<not> is_moved ev \<Longrightarrow> get_cache_key ev = src_path ev"
  by (cases ev; simp add: get_cache_key_def)+

text \<open>
  Whatever the event, a call of \<^verbatim>\<open>_trigger\<close> with the running flag false leaves an
  entry for the cache key: the live one it found, or a new one with the time of
  the insertion.
\<close>

lemma trigger_records:
  assumes "\<not> tests_running h"
  shows "\<exists>v t. map_of (items (file_cache (fst (snd (trigger sys t1 s1 ev (h, calls))))))
                 (get_cache_key ev) = Some (v, t) \<and>
               (fst (ed_contains (file_cache h) (get_cache_key ev) t1) \<or> (v = True \<and> t = s1))"
proof (cases "fst (ed_contains (file_cache h) (get_cache_key ev) t1)")
  case True
  then obtain v t where found: "map_of (items (file_cache h)) (get_cache_key ev) = Some (v, t)"
    and live: "t1 - t < max_age (file_cache h)"
    by (auto simp: ed_contains_def split: option.splits if_splits)
  have "trigger sys t1 s1 ev (h, calls) = (Inr (), h, calls)"
    using assms found live by (rule trigger_live)
  then show ?thesis using found True by simp
next
  case False
  then show ?thesis
    using assms
    by (auto simp: trigger_fresh Let_def run_tests_state map_of_ed_setitem)
qed

text \<open>
  Claim C5, amended. Let the running flag be false and let neither the cache
  key of the event (the destination path of a moved file, the source path of
  every other event) nor its source path end in \<^verbatim>\<open>.py\<close>. Then the call of
  \<^verbatim>\<open>_trigger\<close> returns without a test run, and afterwards the cache key has an
  entry in the cache; unless the key was live already, the entry carries the
  time \<open>s1\<close> of the insertion. A second identical event that is looked up less
  than 1 second after the time of that entry changes neither the cache nor the
  log of runs, and the key occurs once in the cache.
\<close>

theorem trigger_irrelevant:
  assumes inv: "handler_inv h"
    and idle: "\<not> tests_running h"
    and eff: "\<not> endswith (get_cache_key ev) ''.py''"
    and src: "\<not> endswith (src_path ev) ''.py''"
  shows "trigger sys1 t1 s1 ev (h, calls) =
           (Inr (), fst (snd (trigger sys1 t1 s1 ev (h, calls))), calls) \<and>
         (\<exists>v t. map_of (items (file_cache (fst (snd (trigger sys1 t1 s1 ev (h, calls))))))
                   (get_cache_key ev) = Some (v, t) \<and>
                (fst (ed_contains (file_cache h) (get_cache_key ev) t1) \<or>
                 (v = True \<and> t = s1)) \<and>
                (\<forall>sys2 t2 s2. t2 - t < 1 \<longrightarrow>
                   trigger sys2 t2 s2 ev (snd (trigger sys1 t1 s1 ev (h, calls))) =
                     (Inr (), snd (trigger sys1 t1 s1 ev (h, calls))))) \<and>
         get_cache_key ev \<in>
           fst ` set (items (file_cache (fst (snd (trigger sys1 t1 s1 ev (h, calls)))))) \<and>
         length (filter (\<lambda>e. fst e = get_cache_key ev)
           (items (file_cache (fst (snd (trigger sys1 t1 s1 ev (h, calls))))))) = 1"
proof -
  have irrel: "\<not> is_relevant ev"
    using eff src by (simp add: is_relevant_paths)
  define h1 where "h1 = fst (snd (trigger sys1 t1 s1 ev (h, calls)))"
  have first: "trigger sys1 t1 s1 ev (h, calls) = (Inr (), h1, calls)"
    unfolding h1_def using idle irrel
    by (cases "ed_contains (file_cache h) (get_cache_key ev) t1")
      (simp add: trigger_def Let_def)
  have inv1: "handler_inv h1"
    unfolding h1_def using inv by (rule handler_inv_trigger)
  have idle1: "\<not> tests_running h1"
    unfolding h1_def using idle irrel
    by (cases "ed_contains (file_cache h) (get_cache_key ev) t1")
      (simp add: trigger_def Let_def)
  obtain v t where entry1: "map_of (items (file_cache h1)) (get_cache_key ev) = Some (v, t)"
    and stamp: "fst (ed_contains (file_cache h) (get_cache_key ev) t1) \<or> (v = True \<and> t = s1)"
    using trigger_records [OF idle, of sys1 t1 s1 ev calls] unfolding h1_def by blast
  have recorded: "get_cache_key ev \<in> fst ` set (items (file_cache h1))"
    using entry1 by (metis map_of_eq_None_iff option.distinct(1))
  have age: "max_age (file_cache h1) = 1"
    using inv1 by (simp add: handler_inv_def FILE_CACHE_AGE_def)
  have second: "trigger sys2 t2 s2 ev (h1, calls) = (Inr (), h1, calls)"
    if "t2 - t < 1" for sys2 t2 s2
    using idle1 entry1 that by (intro trigger_live) (simp_all add: age)
  have once: "length (filter (\<lambda>e. fst e = get_cache_key ev) (items (file_cache h1))) = 1"
    using inv1 entry1 by (intro count_distinct_key) (simp_all add: handler_inv_def)
  have entry: "\<exists>v t. map_of (items (file_cache h1)) (get_cache_key ev) = Some (v, t) \<and>
      (fst (ed_contains (file_cache h) (get_cache_key ev) t1) \<or> (v = True \<and> t = s1)) \<and>
      (\<forall>sys2 t2 s2. t2 - t < 1 \<longrightarrow>
         trigger sys2 t2 s2 ev (h1, calls) = (Inr (), h1, calls))"
    using entry1 stamp second by blast
  show ?thesis
    unfolding h1_def [symmetric]
    using entry by (simp only: first fst_conv snd_conv recorded once simp_thms)
qed

theorem trigger_irrelevant_witness:
  "handler_inv Handler_init \<and> \<not> tests_running Handler_init \<and>
   \<not> endswith (get_cache_key txt_created) ''.py'' \<and>
   \<not> endswith (src_path txt_created) ''.py'' \<and>
   trigger system_ok 10 10 txt_created (Handler_init, []) =
     (Inr (), fst (snd (trigger system_ok 10 10 txt_created (Handler_init, []))), []) \<and>
   map_of (items (file_cache (fst (snd (trigger system_ok 10 10 txt_created (Handler_init, []))))))
     (get_cache_key txt_created) = Some (True, 10) \<and>
   (10.5::real) - 10 < 1 \<and>
   trigger system_ok 10.5 10.5 txt_created
       (snd (trigger system_ok 10 10 txt_created (Handler_init, []))) =
     (Inr (), snd (trigger system_ok 10 10 txt_created (Handler_init, []))) \<and>
   length (filter (\<lambda>e. fst e = get_cache_key txt_created)
     (items (file_cache (fst (snd (trigger system_ok 10 10 txt_created (Handler_init, []))))))) = 1"
proof -
  let ?st1 = "snd (trigger system_ok 10 10 txt_created (Handler_init, []))"
  have a: "handler_inv Handler_init" by (rule handler_inv_init)
  have b: "\<not> tests_running Handler_init"
    by (simp add: Handler_init_def clear_cache_def)
  have c: "\<not> endswith (get_cache_key txt_created) ''.py''"
    by (simp add: get_cache_key_def txt_created_def endswith_def suffix_to_prefix)
  have c': "\<not> endswith (src_path txt_created) ''.py''"
    by (simp add: txt_created_def endswith_def suffix_to_prefix)
  have fresh: "\<not> fst (ed_contains (file_cache Handler_init) (get_cache_key txt_created) 10)"
    by (simp add: Handler_init_def clear_cache_def ExpiringDict_def ed_contains_def)
  note inst = trigger_irrelevant [OF a b c c', of system_ok 10 10 "[]"]
  from inst obtain v t where
    entry: "map_of (items (file_cache (fst ?st1))) (get_cache_key txt_created) = Some (v, t)"
    and stamp: "fst (ed_contains (file_cache Handler_init) (get_cache_key txt_created) 10) \<or>
                (v = True \<and> t = 10)"
    and later: "\<forall>sys2 t2 s2. t2 - t < 1 \<longrightarrow> trigger sys2 t2 s2 txt_created ?st1 = (Inr (), ?st1)"
    by blast
  have vt: "v = True" "t = 10" using stamp fresh by simp_all
  have d: "map_of (items (file_cache (fst ?st1))) (get_cache_key txt_created) = Some (True, 10)"
    using entry vt by simp
  have e: "(10.5::real) - 10 < 1" by simp
  have f: "trigger system_ok 10.5 10.5 txt_created ?st1 = (Inr (), ?st1)"
    using later e vt by blast
  show ?thesis
    using inst a b c c' d e f by simp
qed

section \<open>The session reporter: proofs\<close>

subsection \<open>Sending\<close>

lemma emitted_send_event: "emitted (send_event E p w ev) = emitted w @ [ev]"
  by (simp add: send_event_def emitted_def split: sum.splits option.splits)

lemma tc_count_send_event: "tc_count (send_event E p w ev) = tc_count w"
  by (simp add: send_event_def split: sum.splits option.splits)

lemma VERDICT_MAP_None:
  "VERDICT_MAP oc = None \<longleftrightarrow>
     oc \<noteq> ''passed'' \<and> oc \<noteq> ''failed'' \<and> oc \<noteq> ''skipped'' \<and> oc \<noteq> ''error''"
  by (auto simp: VERDICT_MAP_def)

subsection \<open>One report\<close>

lemma logreport_skip:
  assumes "when r \<noteq> ''call''" "\<not> (when r = ''setup'' \<and> outcome r = ''skipped'')"
  shows "fst (pytest_runtest_logreport E now r (p, w)) = Inr ()"
    and "snd (snd (pytest_runtest_logreport E now r (p, w))) = w"
    and "start_message_sent (fst (snd (pytest_runtest_logreport E now r (p, w)))) =
           start_message_sent p"
  using assms by (auto simp: pytest_runtest_logreport_def Let_def)

lemma logreport_not_found:
  assumes "when r = ''call''" "test_cases p (nodeid r) = None"
  shows "snd (pytest_runtest_logreport E now r (p, w)) = (p, w)"
  using assms by (simp add: pytest_runtest_logreport_def Let_def split: sum.splits)

lemma logreport_emits:
  assumes "(when r = ''call'' \<and> test_cases p (nodeid r) \<noteq> None) \<or>
           (when r = ''setup'' \<and> outcome r = ''skipped'')"
  shows "emitted (snd (snd (pytest_runtest_logreport E now r (p, w)))) =
           emitted w @
           (if start_message_sent p then []
            else [SessionStartedEvent (suite_name E) (suite_hash E) (tc_count w)]) @
           (case VERDICT_MAP (outcome r) of
              None \<Rightarrow> []
            | Some v \<Rightarrow>
                [TestCaseFinishedEvent
                   (let cs = split_colons [] (nodeid r)
                    in if length cs > 1 then cs ! 1
                       else if ''pep8'' \<in> set (report_keywords r) then ''PEP8''
                       else str_keywords E (report_keywords r))
                   (fspath r) v
                   (if when r = ''call''
                    then py_int ((now - the (test_cases p (nodeid r))) * 1000) else 0)
                   (suite_hash E)])"
    and "start_message_sent (fst (snd (pytest_runtest_logreport E now r (p, w))))"
    and "fst (pytest_runtest_logreport E now r (p, w)) =
           (case VERDICT_MAP (outcome r) of
              None \<Rightarrow> Inl (KeyError (outcome r)) | Some v \<Rightarrow> Inr ())"
    and "reports (fst (snd (pytest_runtest_logreport E now r (p, w)))) =
           (case VERDICT_MAP (outcome r) of
              None \<Rightarrow> reports p | Some v \<Rightarrow> reports p @ [r])"
  using assms
  by (auto simp: pytest_runtest_logreport_def Let_def send_start_event_def
      emitted_send_event tc_count_send_event split: option.splits)

lemma tc_count_logreport:
  "tc_count (snd (snd (pytest_runtest_logreport E now r (p, w)))) = tc_count w"
proof -
  consider (skip) "when r \<noteq> ''call''" "\<not> (when r = ''setup'' \<and> outcome r = ''skipped'')"
    | (missing) "when r = ''call''" "test_cases p (nodeid r) = None"
    | (emit) "(when r = ''call'' \<and> test_cases p (nodeid r) \<noteq> None) \<or>
              (when r = ''setup'' \<and> outcome r = ''skipped'')"
    by blast
  then show ?thesis
  proof cases
    case skip
    then show ?thesis by (simp add: logreport_skip)
  next
    case missing
    then show ?thesis by (simp add: logreport_not_found)
  next
    case emit
    then show ?thesis
      by (auto simp: pytest_runtest_logreport_def Let_def send_start_event_def
          tc_count_send_event split: option.splits)
  qed
qed

lemma logreport_effect:
  "\<exists>es. emitted (snd (snd (pytest_runtest_logreport E now r (p, w)))) = emitted w @ es \<and>
     (if start_message_sent p
      then start_message_sent (fst (snd (pytest_runtest_logreport E now r (p, w)))) \<and>
           list_all is_TestCaseFinished es
      else (\<not> start_message_sent (fst (snd (pytest_runtest_logreport E now r (p, w)))) \<and>
            es = []) \<or>
           (start_message_sent (fst (snd (pytest_runtest_logreport E now r (p, w)))) \<and>
            (\<exists>tcs. es = SessionStartedEvent (suite_name E) (suite_hash E) (tc_count w) # tcs \<and>
               list_all is_TestCaseFinished tcs)))"
proof -
  let ?st = "pytest_runtest_logreport E now r (p, w)"
  consider (skip) "when r \<noteq> ''call''" "\<not> (when r = ''setup'' \<and> outcome r = ''skipped'')"
    | (missing) "when r = ''call''" "test_cases p (nodeid r) = None"
    | (emit) "(when r = ''call'' \<and> test_cases p (nodeid r) \<noteq> None) \<or>
              (when r = ''setup'' \<and> outcome r = ''skipped'')"
    by blast
  then show ?thesis
  proof cases
    case skip
    then show ?thesis by (simp add: logreport_skip)
  next
    case missing
    then show ?thesis by (simp add: logreport_not_found)
  next
    case emit
    show ?thesis
      by (simp add: logreport_emits [OF emit] split: option.splits)
  qed
qed

subsection \<open>Hooks and sessions\<close>

lemma run_hook_effect:
  "\<exists>es. emitted (snd (snd (run_hook E h st))) = emitted (snd st) @ es \<and>
     (if start_message_sent (fst st)
      then start_message_sent (fst (snd (run_hook E h st))) \<and>
           list_all is_TestCaseFinished es
      else (\<not> start_message_sent (fst (snd (run_hook E h st))) \<and> es = []) \<or>
           (start_message_sent (fst (snd (run_hook E h st))) \<and>
            (\<exists>tcs. es = SessionStartedEvent (suite_name E) (suite_hash E) (tc_count (snd st)) # tcs \<and>
               list_all is_TestCaseFinished tcs)))"
proof (cases st)
  case (Pair p w)
  show ?thesis
  proof (cases h)
    case (RuntestLogreport r now)
    show ?thesis
      unfolding Pair RuntestLogreport run_hook.simps fst_conv snd_conv
      by (rule logreport_effect)
  qed (simp_all add: Pair pytest_sessionstart_def pytest_collectstart_def
      pytest_collectreport_def emitted_def Let_def)
qed

lemma started_ok_run_hook:
  assumes "started_ok E base st"
  shows "started_ok E base (snd (run_hook E h st))"
proof -
  obtain es where es: "emitted (snd (snd (run_hook E h st))) = emitted (snd st) @ es"
    and eff: "if start_message_sent (fst st)
      then start_message_sent (fst (snd (run_hook E h st))) \<and>
           list_all is_TestCaseFinished es
      else (\<not> start_message_sent (fst (snd (run_hook E h st))) \<and> es = []) \<or>
           (start_message_sent (fst (snd (run_hook E h st))) \<and>
            (\<exists>tcs. es = SessionStartedEvent (suite_name E) (suite_hash E) (tc_count (snd st)) # tcs \<and>
               list_all is_TestCaseFinished tcs))"
    using run_hook_effect [of E h st] by blast
  show ?thesis
  proof (cases "start_message_sent (fst st)")
    case True
    with assms obtain c tcs where
      "emitted (snd st) = base @ SessionStartedEvent (suite_name E) (suite_hash E) c # tcs"
      "list_all is_TestCaseFinished tcs"
      by (auto simp: started_ok_def)
    moreover from True eff have "start_message_sent (fst (snd (run_hook E h st)))"
      "list_all is_TestCaseFinished es" by simp_all
    ultimately show ?thesis
      unfolding started_ok_def es
      by (auto intro!: exI [of _ c] exI [of _ "tcs @ es"])
  next
    case False
    with assms have base: "emitted (snd st) = base" by (simp add: started_ok_def)
    from False eff show ?thesis
      unfolding started_ok_def es base by auto
  qed
qed

lemma started_ok_run_hooks:
  "started_ok E base st \<Longrightarrow> started_ok E base (run_hooks E hs st)"
  by (induction hs arbitrary: st) (simp_all add: started_ok_run_hook)

lemma started_ok_init: "started_ok E (emitted w) (plugin_init E url, w)"
  by (simp add: started_ok_def plugin_init_def)

lemma run_hooks_after_start:
  "start_message_sent (fst st) \<Longrightarrow>
   start_message_sent (fst (run_hooks E hs st)) \<and>
   (\<exists>tcs. emitted (snd (run_hooks E hs st)) = emitted (snd st) @ tcs \<and>
      list_all is_TestCaseFinished tcs)"
proof (induction hs arbitrary: st)
  case Nil
  then show ?case by simp
next
  case (Cons h hs)
  from run_hook_effect [of E h st] Cons.prems
  obtain es where es: "emitted (snd (snd (run_hook E h st))) = emitted (snd st) @ es"
    "start_message_sent (fst (snd (run_hook E h st)))" "list_all is_TestCaseFinished es"
    by auto
  from Cons.IH [OF es(2)] obtain tcs where
    "start_message_sent (fst (run_hooks E hs (snd (run_hook E h st))))"
    "emitted (snd (run_hooks E hs (snd (run_hook E h st)))) =
       emitted (snd (snd (run_hook E h st))) @ tcs" "list_all is_TestCaseFinished tcs"
    by auto
  with es show ?case
    by (auto intro!: exI [of _ "es @ tcs"])
qed

lemma silent_hook_emits_nothing:
  "silent h \<Longrightarrow> emitted (snd (snd (run_hook E h st))) = emitted (snd st)"
proof (cases st)
  case (Pair p w)
  assume "silent h"
  then show ?thesis
    by (cases h)
      (simp_all add: Pair pytest_sessionstart_def pytest_collectstart_def
        pytest_collectreport_def emitted_def Let_def logreport_skip(2))
qed

lemma node_events_Cons:
  "node_events E n (h # hs) st =
     (if hook_nodeid h = Some n
      then drop (length (emitted (snd st))) (emitted (snd (snd (run_hook E h st)))) else []) @
     node_events E n hs (snd (run_hook E h st))"
  by (simp add: node_events_def)

lemma node_events_silent:
  "list_all (\<lambda>h. hook_nodeid h \<noteq> Some n \<or> silent h) hs \<Longrightarrow> node_events E n hs st = []"
proof (induction hs arbitrary: st)
  case Nil
  show ?case by (simp add: node_events_def)
next
  case (Cons h hs)
  then show ?case
    by (auto simp: node_events_Cons silent_hook_emits_nothing)
qed

lemma tc_count_run_hook:
  "tc_count (snd (snd (run_hook E h st))) = tc_count (snd st) + int (length (hook_items h))"
proof (cases st)
  case (Pair p w)
  show ?thesis
    by (cases h)
      (simp_all add: Pair pytest_sessionstart_def pytest_collectstart_def
        pytest_collectreport_def Let_def tc_count_logreport)
qed

lemma tc_count_run_hooks:
  "tc_count (snd (run_hooks E hs st)) =
     tc_count (snd st) + int (length (concat (map hook_items hs)))"
  by (induction hs arbitrary: st) (simp_all add: tc_count_run_hook)

lemmas demo_defs =
  demo_env_def demo_md5_def demo_connect_def demo_serialize_def demo_send_def demo_format_def
  demo_url_def
  mk_report_def world0_def three_items_def five_items_two_collectors_def

lemmas plugin_defs =
  plugin_init_def log_msg_def pytest_sessionstart_def pytest_collectstart_def pytest_collectreport_def
  pytest_runtest_logreport_def pytest_sessionfinish_def send_start_event_def send_event_def
  suite_name_def suite_hash_def VERDICT_MAP_def emitted_def py_int_def Let_def

subsection \<open>The order of the events\<close>

text \<open>
  Claim C1. For every session (a new plugin, any hook calls, then the
  session-finish hook) the events handed to \<^verbatim>\<open>send_event\<close> during the session are
  some events \<open>pre\<close>, then \<^verbatim>\<open>SessionTerminated\<close>, then \<^verbatim>\<open>ConnectionTermination\<close>, these
  two last; and \<open>pre\<close> is either empty or one \<^verbatim>\<open>SessionStarted\<close> followed by
  \<^verbatim>\<open>TestCaseFinished\<close> events only. So the start event is emitted at most once and
  before every case result, and the two final events come in this order
  whether or not a case ran or the start event was sent.
\<close>

theorem session_event_order:
  "\<exists>pre. emitted (snd (session E url hs w)) =
           emitted w @ pre @
           [SessionTerminatedEvent (suite_hash E), ConnectionTerminationEvent (suite_hash E)] \<and>
         (pre = [] \<or>
          (\<exists>c tcs. pre = SessionStartedEvent (suite_name E) (suite_hash E) c # tcs \<and>
             list_all is_TestCaseFinished tcs))"
proof -
  obtain p1 w1 where st1: "run_hooks E hs (plugin_init E url, w) = (p1, w1)"
    by (cases "run_hooks E hs (plugin_init E url, w)")
  have ok: "started_ok E (emitted w) (p1, w1)"
    using started_ok_run_hooks [OF started_ok_init, where hs = hs and url1 = url and E = E and ?w1 = w]
    by (simp add: st1)
  have fin: "emitted (snd (session E url hs w)) =
      emitted w1 @ [SessionTerminatedEvent (suite_hash E), ConnectionTerminationEvent (suite_hash E)]"
    by (simp add: session_def st1 pytest_sessionfinish_def Let_def emitted_send_event)
  show ?thesis
  proof (cases "start_message_sent p1")
    case True
    with ok obtain c tcs where
      "emitted w1 = emitted w @ SessionStartedEvent (suite_name E) (suite_hash E) c # tcs"
      "list_all is_TestCaseFinished tcs"
      by (auto simp: started_ok_def)
    then show ?thesis
      unfolding fin
      by (intro exI [of _ "SessionStartedEvent (suite_name E) (suite_hash E) c # tcs"]) simp
  next
    case False
    with ok have "emitted w1 = emitted w" by (simp add: started_ok_def)
    then show ?thesis unfolding fin by (intro exI [of _ "[]"]) simp
  qed
qed

text \<open>
  The session of the specification: setup and call of a passing case, setup
  and call of a failing case, then the end of the session.
\<close>

lemma session_example:
  "emitted (snd (session demo_env demo_url example_hooks world0)) =
     [SessionStartedEvent ''host: /work'' ''md5:host: /work'' 0,
      TestCaseFinishedEvent ''test_a'' ''test_m.py'' ''pass'' 1000 ''md5:host: /work'',
      TestCaseFinishedEvent ''test_b'' ''test_m.py'' ''fail'' 2000 ''md5:host: /work'',
      SessionTerminatedEvent ''md5:host: /work'',
      ConnectionTerminationEvent ''md5:host: /work'']"
  by (simp add: session_def example_hooks_def demo_defs plugin_defs)

subsection \<open>Results of single cases\<close>

text \<open>
  Claim C7. Let a report of phase setup with outcome skipped be the only report
  hook of its node id that is of the call phase or a skipped setup (other
  hooks of the node id, such as the teardown report, return before the
  emission). Then, in any session and at any place in it, the report hooks of
  this node id emit exactly one \<^verbatim>\<open>TestCaseFinished\<close> event, and it carries the
  verdict \<^verbatim>\<open>skipped\<close> and the duration 0.
\<close>

theorem setup_skipped_reports_once:
  assumes phase: "when r = ''setup''"
    and skipped: "outcome r = ''skipped''"
    and others: "list_all (\<lambda>h. hook_nodeid h \<noteq> Some (nodeid r) \<or> silent h) (pre @ post)"
  shows "filter is_TestCaseFinished
           (node_events E (nodeid r) (pre @ RuntestLogreport r now # post) st) =
         [TestCaseFinishedEvent (tc_name E r) (fspath r) ''skipped'' 0 (suite_hash E)]"
proof -
  have post: "list_all (\<lambda>h. hook_nodeid h \<noteq> Some (nodeid r) \<or> silent h) post"
    using others by simp
  have here: "filter is_TestCaseFinished
      (node_events E (nodeid r) (RuntestLogreport r now # post) st') =
      [TestCaseFinishedEvent (tc_name E r) (fspath r) ''skipped'' 0 (suite_hash E)]" for st'
  proof (cases st')
    case (Pair p w)
    have emit: "(when r = ''call'' \<and> test_cases p (nodeid r) \<noteq> None) \<or>
        (when r = ''setup'' \<and> outcome r = ''skipped'')"
      using phase skipped by simp
    show ?thesis
      unfolding node_events_Cons node_events_silent [OF post]
      by (simp add: Pair logreport_emits(1) [OF emit] skipped phase VERDICT_MAP_def
          tc_name_def Let_def)
  qed
  have "list_all (\<lambda>h. hook_nodeid h \<noteq> Some (nodeid r) \<or> silent h) pre"
    using others by simp
  then show ?thesis
  proof (induction pre arbitrary: st)
    case Nil
    show ?case by (simp add: here)
  next
    case (Cons h hs)
    then show ?case
      by (auto simp: node_events_Cons silent_hook_emits_nothing)
  qed
qed

theorem setup_skipped_reports_once_witness:
  "when skipped_a = ''setup'' \<and> outcome skipped_a = ''skipped'' \<and>
   list_all (\<lambda>h. hook_nodeid h \<noteq> Some (nodeid skipped_a) \<or> silent h)
     (hooks_before @ hooks_after) \<and>
   filter is_TestCaseFinished
     (node_events demo_env (nodeid skipped_a)
        (hooks_before @ RuntestLogreport skipped_a 3 # hooks_after)
        (plugin_init demo_env demo_url, world0)) =
     [TestCaseFinishedEvent ''test_a'' ''test_m.py'' ''skipped'' 0 ''md5:host: /work'']"
proof -
  have a: "when skipped_a = ''setup''" by (simp add: skipped_a_def mk_report_def)
  have b: "outcome skipped_a = ''skipped''" by (simp add: skipped_a_def mk_report_def)
  have c: "list_all (\<lambda>h. hook_nodeid h \<noteq> Some (nodeid skipped_a) \<or> silent h)
     (hooks_before @ hooks_after)"
    by (simp add: skipped_a_def mk_report_def hooks_before_def hooks_after_def)
  have d: "tc_name demo_env skipped_a = ''test_a''" "fspath skipped_a = ''test_m.py''"
    "suite_hash demo_env = ''md5:host: /work''"
    by (simp_all add: tc_name_def skipped_a_def demo_defs suite_hash_def suite_name_def)
  show ?thesis
    using setup_skipped_reports_once [OF a b c, of demo_env 3 "(plugin_init demo_env demo_url, world0)"]
      a b c by (simp add: d)
qed

text \<open>
  Claim C9. Let a report reach the emission (call phase with a recorded setup
  time, or skipped setup) with an outcome that is none of \<^verbatim>\<open>passed\<close>, \<^verbatim>\<open>failed\<close>,
  \<^verbatim>\<open>skipped\<close>, \<^verbatim>\<open>error\<close>. Then the hook raises \<^verbatim>\<open>KeyError\<close> for that outcome; the
  only event it can have emitted is the start event, so no \<^verbatim>\<open>TestCaseFinished\<close>
  event is emitted; and the report is not appended to the report log.
\<close>

theorem unmapped_outcome_raises:
  assumes reach: "(when r = ''call'' \<and> test_cases p (nodeid r) \<noteq> None) \<or>
                  (when r = ''setup'' \<and> outcome r = ''skipped'')"
    and unmapped: "outcome r \<notin> {''passed'', ''failed'', ''skipped'', ''error''}"
  shows "fst (pytest_runtest_logreport E now r (p, w)) = Inl (KeyError (outcome r)) \<and>
         emitted (snd (snd (pytest_runtest_logreport E now r (p, w)))) =
           emitted w @
           (if start_message_sent p then []
            else [SessionStartedEvent (suite_name E) (suite_hash E) (tc_count w)]) \<and>
         filter is_TestCaseFinished
           (drop (length (emitted w))
              (emitted (snd (snd (pytest_runtest_logreport E now r (p, w)))))) = [] \<and>
         reports (fst (snd (pytest_runtest_logreport E now r (p, w)))) = reports p"
proof -
  have none: "VERDICT_MAP (outcome r) = None"
    using unmapped by (simp add: VERDICT_MAP_None)
  show ?thesis
    by (simp add: logreport_emits [OF reach] none)
qed

theorem unmapped_outcome_raises_witness:
  "((when weird_call_a = ''call'' \<and> test_cases plugin_after_setup (nodeid weird_call_a) \<noteq> None) \<or>
    (when weird_call_a = ''setup'' \<and> outcome weird_call_a = ''skipped'')) \<and>
   outcome weird_call_a \<notin> {''passed'', ''failed'', ''skipped'', ''error''} \<and>
   fst (pytest_runtest_logreport demo_env 2 weird_call_a (plugin_after_setup, world0)) =
     Inl (KeyError ''xfailed'') \<and>
   emitted (snd (snd (pytest_runtest_logreport demo_env 2 weird_call_a (plugin_after_setup, world0)))) =
     [SessionStartedEvent ''host: /work'' ''md5:host: /work'' 0] \<and>
   reports (fst (snd (pytest_runtest_logreport demo_env 2 weird_call_a (plugin_after_setup, world0)))) = []"
proof -
  have a: "(when weird_call_a = ''call'' \<and> test_cases plugin_after_setup (nodeid weird_call_a) \<noteq> None) \<or>
    (when weird_call_a = ''setup'' \<and> outcome weird_call_a = ''skipped'')"
    by (simp add: weird_call_a_def mk_report_def plugin_after_setup_def)
  have b: "outcome weird_call_a \<notin> {''passed'', ''failed'', ''skipped'', ''error''}"
    by (simp add: weird_call_a_def mk_report_def)
  have c: "outcome weird_call_a = ''xfailed''" "\<not> start_message_sent plugin_after_setup"
    "reports plugin_after_setup = []" "emitted world0 = []" "tc_count world0 = 0"
    "suite_name demo_env = ''host: /work''" "suite_hash demo_env = ''md5:host: /work''"
    by (simp_all add: weird_call_a_def plugin_after_setup_def plugin_init_def demo_defs
        emitted_def suite_hash_def suite_name_def)
  show ?thesis
    using unmapped_outcome_raises [OF a b, of demo_env 2 world0] a b by (simp add: c)
qed

text \<open>
  Claim C10. Let the start event not be sent yet and let the first report that
  reaches the emission carry an unmapped outcome. Then the hook raises
  \<^verbatim>\<open>KeyError\<close> after it has emitted \<^verbatim>\<open>SessionStarted\<close> and set the start-sent flag,
  and neither is undone: whatever hooks follow in the session, all they emit
  are \<^verbatim>\<open>TestCaseFinished\<close> events, so the start event is not sent again.
\<close>

theorem unmapped_outcome_not_atomic:
  assumes first: "\<not> start_message_sent p"
    and reach: "(when r = ''call'' \<and> test_cases p (nodeid r) \<noteq> None) \<or>
                (when r = ''setup'' \<and> outcome r = ''skipped'')"
    and unmapped: "outcome r \<notin> {''passed'', ''failed'', ''skipped'', ''error''}"
  shows "fst (pytest_runtest_logreport E now r (p, w)) = Inl (KeyError (outcome r)) \<and>
         emitted (snd (snd (pytest_runtest_logreport E now r (p, w)))) =
           emitted w @ [SessionStartedEvent (suite_name E) (suite_hash E) (tc_count w)] \<and>
         start_message_sent (fst (snd (pytest_runtest_logreport E now r (p, w)))) \<and>
         (\<exists>tcs. emitted (snd (run_hooks E hs (snd (pytest_runtest_logreport E now r (p, w))))) =
            emitted w @ SessionStartedEvent (suite_name E) (suite_hash E) (tc_count w) # tcs \<and>
            list_all is_TestCaseFinished tcs)"
proof -
  let ?st1 = "snd (pytest_runtest_logreport E now r (p, w))"
  have none: "VERDICT_MAP (outcome r) = None"
    using unmapped by (simp add: VERDICT_MAP_None)
  have raised: "fst (pytest_runtest_logreport E now r (p, w)) = Inl (KeyError (outcome r))"
    by (simp add: logreport_emits(3) [OF reach] none)
  have log1: "emitted (snd ?st1) =
      emitted w @ [SessionStartedEvent (suite_name E) (suite_hash E) (tc_count w)]"
    using first by (simp add: logreport_emits(1) [OF reach] none)
  have sent: "start_message_sent (fst ?st1)"
    by (rule logreport_emits(2) [OF reach])
  from run_hooks_after_start [OF sent, of E hs] obtain tcs where
    "emitted (snd (run_hooks E hs ?st1)) = emitted (snd ?st1) @ tcs"
    "list_all is_TestCaseFinished tcs" by auto
  then have later: "\<exists>tcs. emitted (snd (run_hooks E hs ?st1)) =
      emitted w @ SessionStartedEvent (suite_name E) (suite_hash E) (tc_count w) # tcs \<and>
      list_all is_TestCaseFinished tcs"
    by (auto simp: log1)
  show ?thesis
    using raised log1 sent later by blast
qed

theorem unmapped_outcome_not_atomic_witness:
  "\<not> start_message_sent plugin_after_setup \<and>
   ((when weird_call_a = ''call'' \<and> test_cases plugin_after_setup (nodeid weird_call_a) \<noteq> None) \<or>
    (when weird_call_a = ''setup'' \<and> outcome weird_call_a = ''skipped'')) \<and>
   outcome weird_call_a \<notin> {''passed'', ''failed'', ''skipped'', ''error''} \<and>
   fst (pytest_runtest_logreport demo_env 2 weird_call_a (plugin_after_setup, world0)) =
     Inl (KeyError ''xfailed'') \<and>
   emitted (snd (snd (pytest_runtest_logreport demo_env 2 weird_call_a (plugin_after_setup, world0)))) =
     [SessionStartedEvent ''host: /work'' ''md5:host: /work'' 0] \<and>
   start_message_sent
     (fst (snd (pytest_runtest_logreport demo_env 2 weird_call_a (plugin_after_setup, world0)))) \<and>
   (\<exists>tcs. emitted (snd (run_hooks demo_env [RuntestLogreport skipped_a 3]
        (snd (pytest_runtest_logreport demo_env 2 weird_call_a (plugin_after_setup, world0))))) =
      SessionStartedEvent ''host: /work'' ''md5:host: /work'' 0 # tcs \<and>
      list_all is_TestCaseFinished tcs)"
proof -
  have a: "\<not> start_message_sent plugin_after_setup"
    by (simp add: plugin_after_setup_def plugin_init_def)
  have b: "(when weird_call_a = ''call'' \<and> test_cases plugin_after_setup (nodeid weird_call_a) \<noteq> None) \<or>
    (when weird_call_a = ''setup'' \<and> outcome weird_call_a = ''skipped'')"
    by (simp add: weird_call_a_def mk_report_def plugin_after_setup_def)
  have c: "outcome weird_call_a \<notin> {''passed'', ''failed'', ''skipped'', ''error''}"
    by (simp add: weird_call_a_def mk_report_def)
  have d: "outcome weird_call_a = ''xfailed''" "emitted world0 = []" "tc_count world0 = 0"
    "suite_name demo_env = ''host: /work''" "suite_hash demo_env = ''md5:host: /work''"
    by (simp_all add: weird_call_a_def demo_defs emitted_def suite_hash_def suite_name_def)
  show ?thesis
    using unmapped_outcome_not_atomic [OF a b c, of demo_env 2 world0 "[RuntestLogreport skipped_a 3]"]
      a b c by (simp add: d)
qed

subsection \<open>The test-case counter\<close>

text \<open>
  Claim C8. A collection report adds the number of its executable test cases
  (and nothing for other collection nodes) to the counter. A new plugin
  instance does not reset the counter: after any hooks of a new instance the
  counter is its old value plus the number of test cases the collection
  reports among the hooks delivered. The \<^verbatim>\<open>SessionStarted\<close> event carries the
  value the counter has when the event is sent.
\<close>

theorem tc_count_process_wide:
  "tc_count (snd (snd (pytest_collectreport rep (p, w)))) =
     tc_count w + int (length (filter is_relevant_tc (result rep))) \<and>
   tc_count (snd (run_hooks E hs (plugin_init E url, w))) =
     tc_count w + int (length (concat (map hook_items hs))) \<and>
   emitted (snd (send_start_event E (p, w))) =
     emitted w @ [SessionStartedEvent (suite_name E) (suite_hash E) (tc_count w)]"
  by (simp add: tc_count_run_hooks pytest_collectreport_def Let_def send_start_event_def
      emitted_send_event)

text \<open>
  The example of the specification: reports of 3 and of 5 test cases, the
  second with 2 other nodes, received by one plugin instance; the start event
  sent by the next instance carries the count 8.
\<close>

theorem tc_count_process_wide_witness:
  "tc_count (snd (run_hooks demo_env [CollectReport three_items, CollectReport five_items_two_collectors]
      (plugin_init demo_env demo_url, world0))) = 8 \<and>
   emitted (snd (run_hooks demo_env [RuntestLogreport skipped_a 3]
      (plugin_init demo_env demo_url,
       snd (run_hooks demo_env [CollectReport three_items, CollectReport five_items_two_collectors]
         (plugin_init demo_env demo_url, world0))))) =
     [SessionStartedEvent ''host: /work'' ''md5:host: /work'' 8,
      TestCaseFinishedEvent ''test_a'' ''test_m.py'' ''skipped'' 0 ''md5:host: /work'']"
proof -
  have count: "tc_count (snd (run_hooks demo_env
      [CollectReport three_items, CollectReport five_items_two_collectors]
      (plugin_init demo_env demo_url, world0))) = 8"
    using tc_count_process_wide [of three_items "plugin_init demo_env demo_url" world0 demo_env
        "[CollectReport three_items, CollectReport five_items_two_collectors]" demo_url]
    by (simp add: three_items_def five_items_two_collectors_def world0_def)
  have log: "emitted (snd (run_hooks demo_env
      [CollectReport three_items, CollectReport five_items_two_collectors]
      (plugin_init demo_env demo_url, world0))) = []"
    by (simp add: pytest_collectreport_def Let_def emitted_def world0_def)
  show ?thesis
    unfolding count
    by (rule conjI [OF refl])
      (simp add: skipped_a_def demo_defs plugin_defs)
qed

end
